theory Spec2Isabelle
  imports Complex_Main "HOL-Library.Multiset"
begin

section \<open>Numerical conventions\<close>

text \<open>
  The notebooks compute with NumPy arrays of 64-bit floats. An array is modelled as a
  list and a finite float as a real number: arithmetic is exact, so rounding, overflow
  and signed zeros are outside the model. What NumPy does where real arithmetic has no
  answer is kept: dividing by zero gives an infinity or a NaN (with a warning, never an
  exception), and a comparison with NaN is false. Where a property depends on the
  rounding itself, the loop body of the sweep is modelled a second time with every
  arithmetic result rounded (section "Rounding to 64-bit floats").
\<close>

datatype npfloat = Finite real | PosInf | NegInf | NaN

text \<open>Exceptions of the Python run: NumPy's, and whatever the battery solver raises.\<close>

datatype 'e exn = ValueError | IndexError | Raised 'e

text \<open>\<^verbatim>\<open>a / b\<close> on finite floats.\<close>

definition np_div :: "real \<Rightarrow> real \<Rightarrow> npfloat" where
  "np_div a b =
     (if b \<noteq> 0 then Finite (a / b)
      else if 0 < a then PosInf
      else if a < 0 then NegInf
      else NaN)"

text \<open>\<^verbatim>\<open>x * c\<close> with a finite right operand.\<close>

fun np_mul :: "npfloat \<Rightarrow> real \<Rightarrow> npfloat" where
  "np_mul (Finite x) c = Finite (x * c)"
| "np_mul PosInf c = (if 0 < c then PosInf else if c < 0 then NegInf else NaN)"
| "np_mul NegInf c = (if 0 < c then NegInf else if c < 0 then PosInf else NaN)"
| "np_mul NaN c = NaN"

text \<open>\<^verbatim>\<open>x < t\<close> with a finite right operand.\<close>

fun np_less :: "npfloat \<Rightarrow> real \<Rightarrow> bool" where
  "np_less (Finite x) t = (x < t)"
| "np_less PosInf t = False"
| "np_less NegInf t = True"
| "np_less NaN t = False"

text \<open>
  A binary operator on two one-dimensional arrays: equal shapes pair up by index, a
  one-element array is broadcast, any other pair of shapes raises \<^verbatim>\<open>ValueError\<close>.
\<close>

definition np_broadcast :: "('a \<Rightarrow> 'b \<Rightarrow> 'c) \<Rightarrow> 'a list \<Rightarrow> 'b list \<Rightarrow> 'e exn + 'c list" where
  "np_broadcast f xs ys =
     (if length xs = length ys then Inr (map2 f xs ys)
      else if length ys = 1 then Inr (map (\<lambda>x. f x (hd ys)) xs)
      else if length xs = 1 then Inr (map (\<lambda>y. f (hd xs) y) ys)
      else Inl ValueError)"

text \<open>\<^verbatim>\<open>mask.sum()\<close> on a boolean array: True counts 1, False counts 0.\<close>

definition np_sum_bool :: "bool list \<Rightarrow> nat" where
  "np_sum_bool bs = sum_list (map (\<lambda>b. if b then 1 else 0) bs)"

section \<open>Variability sampler\<close>

text \<open>
  \<^verbatim>\<open>(npr_actual < 1).sum() / len(npr_actual) * 100\<close>, with the threshold (the literal 1
  in all three cells) as a parameter. The count is a NumPy integer, so the division by
  a zero length does not raise: it yields NaN.
\<close>

definition exceedance :: "real \<Rightarrow> npfloat list \<Rightarrow> npfloat" where
  "exceedance thr npr =
     np_mul (np_div (real (np_sum_bool (map (\<lambda>r. np_less r thr) npr))) (real (length npr))) 100"

text \<open>The two ratio computations: \<^verbatim>\<open>neg_areal_capacity / pos_areal_capacity\<close> of the base case and
  \<^verbatim>\<open>neg_areal_capacity*ANODE_LOADING_INCREASE_FACTOR / pos_areal_capacity\<close> of the later cells.\<close>

definition npr_base :: "real list \<Rightarrow> real list \<Rightarrow> 'e exn + npfloat list" where
  "npr_base neg pos = np_broadcast np_div neg pos"

definition npr_scaled :: "real \<Rightarrow> real list \<Rightarrow> real list \<Rightarrow> 'e exn + npfloat list" where
  "npr_scaled f neg pos = np_broadcast np_div (map (\<lambda>x. x * f) neg) pos"

subsection \<open>The notebook as a state\<close>

text \<open>
  The cells of the variability notebook run in order on the interpreter's global
  variables. The state keeps the variables the statistics depend on, and the state of
  NumPy's process-wide random generator, which \<^verbatim>\<open>np.random.normal\<close> reads and advances.
  The generator is a parameter \<open>normal mean std n g\<close>, returning \<open>n\<close> draws and the next
  generator state. Plotting calls are left out; \<^verbatim>\<open>np.min\<close> and \<^verbatim>\<open>np.max\<close>, which compute
  the plotted range before the ratio, raise \<^verbatim>\<open>ValueError\<close> on an empty array. A cell that
  raises is modelled by its exception alone: what it had assigned before raising is not
  followed further.
\<close>

record 'g notebook =
  rng :: 'g
  neg_areal_capacity :: "real list"
  pos_areal_capacity :: "real list"
  pos_areal_capacity_new :: "real list"
  ANODE_LOADING_INCREASE_FACTOR :: real
  npr_actual :: "npfloat list"
  percent_more :: npfloat

type_synonym 'g sampler = "real \<Rightarrow> real \<Rightarrow> nat \<Rightarrow> 'g \<Rightarrow> real list \<times> 'g"


definition NEG_LOADING_MEAN :: real where "NEG_LOADING_MEAN = 14.85"
definition POS_LOADING_MEAN :: real where "POS_LOADING_MEAN = 24.69"
definition NEG_QSP :: real where "NEG_QSP = 372"
definition POS_QSP :: real where "POS_QSP = 224"
definition NEG_LOADING_CV :: real where "NEG_LOADING_CV = 0.02"
definition POS_LOADING_CV :: real where "POS_LOADING_CV = 0.03"
definition neg_loading_std :: real where "neg_loading_std = NEG_LOADING_MEAN * NEG_LOADING_CV"
definition pos_loading_std :: real where "pos_loading_std = POS_LOADING_MEAN * POS_LOADING_CV"

text \<open>Cell "Monte Carlo sampling"; the sample count (10000 in the notebook) is a parameter.\<close>

definition monte_carlo_sampling :: "'g sampler \<Rightarrow> nat \<Rightarrow> 'g notebook \<Rightarrow> 'g notebook" where
  "monte_carlo_sampling normal N st =
     (case normal NEG_LOADING_MEAN neg_loading_std N (rng st) of (neg_loading, g1) \<Rightarrow>
      case normal POS_LOADING_MEAN pos_loading_std N g1 of (pos_loading, g2) \<Rightarrow>
        st\<lparr>rng := g2,
           neg_areal_capacity := map (\<lambda>x. x * NEG_QSP / 1000) neg_loading,
           pos_areal_capacity := map (\<lambda>x. x * POS_QSP / 1000) pos_loading\<rparr>)"


text \<open>Cell "Explore the effect of increasing the anode loading target"; the factor (1.05 in
  the notebook) is a parameter.\<close>

definition increase_anode_loading :: "real \<Rightarrow> 'g notebook \<Rightarrow> 'e exn + 'g notebook" where
  "increase_anode_loading f st =
     (if pos_areal_capacity st = [] then Inl ValueError
      else case npr_scaled f (neg_areal_capacity st) (pos_areal_capacity st) of
          Inl e \<Rightarrow> Inl e
        | Inr npr \<Rightarrow>
            Inr (st\<lparr>ANODE_LOADING_INCREASE_FACTOR := f, npr_actual := npr,
                    percent_more := exceedance 1 npr\<rparr>))"



text \<open>
  Scenario 2 as the specification words it, for comparison with the cell above: the
  positive loading is drawn afresh from the generator and the ratio is taken against
  the new draw.
\<close>

definition increase_anode_loading_resampling ::
    "'g sampler \<Rightarrow> nat \<Rightarrow> real \<Rightarrow> 'g notebook \<Rightarrow> 'e exn + 'g notebook" where
  "increase_anode_loading_resampling normal N f st =
     (case normal POS_LOADING_MEAN pos_loading_std N (rng st) of (pos_loading, g1) \<Rightarrow>
        increase_anode_loading f
          (st\<lparr>rng := g1, pos_areal_capacity := map (\<lambda>x. x * POS_QSP / 1000) pos_loading\<rparr>))"

text \<open>A deterministic stand-in for the generator, used to run the cells on concrete data:
  the state counts the draws made so far, and a draw is the mean shifted by that count
  of standard deviations.\<close>

definition counting_normal :: "nat sampler" where
  "counting_normal mean std n g = (map (\<lambda>i. mean + std * real i) [g..<g + n], g + n)"

definition fresh_notebook :: "nat notebook" where
  "fresh_notebook =
     \<lparr>rng = 0, neg_areal_capacity = [], pos_areal_capacity = [], pos_areal_capacity_new = [],
      ANODE_LOADING_INCREASE_FACTOR = 1, npr_actual = [], percent_more = NaN\<rparr>"

section \<open>Rate sweep harness\<close>

text \<open>
  What one solver run hands back: the arrays under \<^verbatim>\<open>"Time [s]"\<close>, \<^verbatim>\<open>"Power [W]"\<close> and
  \<^verbatim>\<open>"Voltage [V]"\<close>.
\<close>

record solution =
  sol_time :: "real list"
  sol_power :: "real list"
  sol_voltage :: "real list"

text \<open>The dictionary \<^verbatim>\<open>outputs\<close>, one field per key.\<close>

record 'r outputs =
  C_rate :: "'r list"
  Energy_Wh :: "real list list"
  Discharge_Energy_Wh :: "real list"
  Time_s :: "real list list"
  Voltage_V :: "real list list"
  Mean_Power_W :: "npfloat list"

text \<open>
  The battery solver is outside the repository. One invocation covers building the
  experiment and the simulation, calling \<^verbatim>\<open>sim.solve\<close> and reading the three arrays off
  the result: it takes the parameter values and the rate, reads and updates the objects
  the calls share (the global model and solver), and either raises or returns a
  solution.
\<close>

type_synonym ('p, 'r, 'w, 'e) solver = "'p \<Rightarrow> 'r \<Rightarrow> 'w \<Rightarrow> ('e + solution) \<times> 'w"

definition np_append :: "'a \<Rightarrow> 'a list \<Rightarrow> 'a list" where
  "np_append x xs = x # xs"

fun np_diff :: "real list \<Rightarrow> real list" where
  "np_diff (x # y # zs) = (y - x) # np_diff (y # zs)"
| "np_diff _ = []"

fun cumsum_from :: "real \<Rightarrow> real list \<Rightarrow> real list" where
  "cumsum_from acc [] = []"
| "cumsum_from acc (x # xs) = (acc + x) # cumsum_from (acc + x) xs"

definition np_cumsum :: "real list \<Rightarrow> real list" where
  "np_cumsum xs = cumsum_from 0 xs"

text \<open>\<^verbatim>\<open>np.mean\<close>: the mean of an empty array is NaN, with a warning.\<close>

definition np_mean :: "real list \<Rightarrow> npfloat" where
  "np_mean xs = np_div (sum_list xs) (real (length xs))"

text \<open>\<^verbatim>\<open>xs[-1]\<close>.\<close>

definition index_last :: "'a list \<Rightarrow> 'e exn + 'a" where
  "index_last xs = (if xs = [] then Inl IndexError else Inr (last xs))"

text \<open>\<^verbatim>\<open>np.cumsum(power * np.diff(np.append(0, time))) / 3600\<close>.\<close>

definition cumulative_energy :: "real list \<Rightarrow> real list \<Rightarrow> 'e exn + real list" where
  "cumulative_energy time pwr =
     (case np_broadcast (*) pwr (np_diff (np_append 0 time)) of
        Inl e \<Rightarrow> Inl e
      | Inr pdt \<Rightarrow> Inr (map (\<lambda>x. x / 3600) (np_cumsum pdt)))"

text \<open>The body of the loop after the solver has returned: every computation that can raise
  comes before the first \<^verbatim>\<open>append\<close>.\<close>

definition sweep_point :: "solution \<Rightarrow> 'r outputs \<Rightarrow> 'e exn + 'r outputs" where
  "sweep_point sol outs =
     (let time = sol_time sol; pwr = sol_power sol; voltage = sol_voltage sol in
      case cumulative_energy time pwr of
        Inl e \<Rightarrow> Inl e
      | Inr energy \<Rightarrow>
         (case index_last energy of
            Inl e \<Rightarrow> Inl e
          | Inr discharge_energy \<Rightarrow>
              Inr (outs\<lparr>Voltage_V := Voltage_V outs @ [voltage],
                        Time_s := Time_s outs @ [time],
                        Energy_Wh := Energy_Wh outs @ [energy],
                        Discharge_Energy_Wh := Discharge_Energy_Wh outs @ [discharge_energy],
                        Mean_Power_W := Mean_Power_W outs @ [np_mean pwr]\<rparr>)))"

fun sweep_loop ::
    "('p, 'r, 'w, 'e) solver \<Rightarrow> 'p \<Rightarrow> 'r list \<Rightarrow> 'r outputs \<Rightarrow> 'w \<Rightarrow> ('e exn + 'r outputs) \<times> 'w" where
  "sweep_loop solve pv [] outs w = (Inr outs, w)"
| "sweep_loop solve pv (r # rs) outs w =
     (case solve pv r w of
        (Inl e, w') \<Rightarrow> (Inl (Raised e), w')
      | (Inr sol, w') \<Rightarrow>
         (case sweep_point sol outs of
            Inl e \<Rightarrow> (Inl e, w')
          | Inr outs' \<Rightarrow> sweep_loop solve pv rs outs' w'))"

definition initial_outputs :: "'r list \<Rightarrow> 'r outputs" where
  "initial_outputs C_rates =
     \<lparr>C_rate = C_rates, Energy_Wh = [], Discharge_Energy_Wh = [], Time_s = [],
      Voltage_V = [], Mean_Power_W = []\<rparr>"

definition sweep_c_rate ::
    "('p, 'r, 'w, 'e) solver \<Rightarrow> 'r list \<Rightarrow> 'p \<Rightarrow> 'w \<Rightarrow> ('e exn + 'r outputs) \<times> 'w" where
  "sweep_c_rate solve C_rates parameter_values w =
     sweep_loop solve parameter_values C_rates (initial_outputs C_rates) w"

text \<open>
  The results of the solver's successive invocations on a list of rates, each started
  in the state the one before left: the runs a sweep makes as long as nothing raises.
\<close>

fun solver_runs :: "('p, 'r, 'w, 'e) solver \<Rightarrow> 'p \<Rightarrow> 'r list \<Rightarrow> 'w \<Rightarrow> ('e + solution) list" where
  "solver_runs solve pv [] w = []"
| "solver_runs solve pv (r # rs) w =
     (case solve pv r w of (res, w') \<Rightarrow> res # solver_runs solve pv rs w')"

section \<open>Rounding to 64-bit floats\<close>



text \<open>
  The computations of the loop body with the result of every arithmetic operation
  passed through a rounding function \<open>rnd\<close>: the differences of \<^verbatim>\<open>np.diff\<close>, the products
  of \<^verbatim>\<open>power * dt\<close>, the running sums of \<^verbatim>\<open>np.cumsum\<close> (each sum added to the next
  element, the first element copied), and the quotients by 3600. With the identity for
  \<open>rnd\<close> they are the computations of the section before.
\<close>

fun np_diff_rnd :: "(real \<Rightarrow> real) \<Rightarrow> real list \<Rightarrow> real list" where
  "np_diff_rnd rnd (x # y # zs) = rnd (y - x) # np_diff_rnd rnd (y # zs)"
| "np_diff_rnd rnd _ = []"

fun accumulate_rnd :: "(real \<Rightarrow> real) \<Rightarrow> real \<Rightarrow> real list \<Rightarrow> real list" where
  "accumulate_rnd rnd acc [] = []"
| "accumulate_rnd rnd acc (x # xs) = rnd (acc + x) # accumulate_rnd rnd (rnd (acc + x)) xs"

fun np_cumsum_rnd :: "(real \<Rightarrow> real) \<Rightarrow> real list \<Rightarrow> real list" where
  "np_cumsum_rnd rnd [] = []"
| "np_cumsum_rnd rnd (x # xs) = x # accumulate_rnd rnd x xs"

definition cumulative_energy_rnd ::
    "(real \<Rightarrow> real) \<Rightarrow> real list \<Rightarrow> real list \<Rightarrow> 'e exn + real list" where
  "cumulative_energy_rnd rnd time pwr =
     (case np_broadcast (\<lambda>p d. rnd (p * d)) pwr (np_diff_rnd rnd (np_append 0 time)) of
        Inl e \<Rightarrow> Inl e
      | Inr pdt \<Rightarrow> Inr (map (\<lambda>x. rnd (x / 3600)) (np_cumsum_rnd rnd pdt)))"

text \<open>
  \<^verbatim>\<open>np.mean\<close> adds the elements and divides by their number. NumPy chooses the order and
  the grouping of the additions (it adds in blocks), so the sum is modelled as a
  relation that admits every order and grouping: \<open>reduce_add rnd A s\<close> holds when \<open>s\<close>
  results from adding the elements of \<open>A\<close> two partial sums at a time, each addition
  rounded. The mean is then a set of possible results, and so is the loop body's.
\<close>

inductive reduce_add :: "(real \<Rightarrow> real) \<Rightarrow> real multiset \<Rightarrow> real \<Rightarrow> bool"
  for rnd :: "real \<Rightarrow> real" where
  one: "reduce_add rnd {#x#} x"
| add: "reduce_add rnd A a \<Longrightarrow> reduce_add rnd B b \<Longrightarrow> reduce_add rnd (A + B) (rnd (a + b))"

definition np_mean_rnd :: "(real \<Rightarrow> real) \<Rightarrow> real list \<Rightarrow> npfloat set" where
  "np_mean_rnd rnd xs =
     (if xs = [] then {NaN}
      else {Finite (rnd (s / real (length xs))) | s. reduce_add rnd (mset xs) s})"

definition sweep_point_rnd ::
    "(real \<Rightarrow> real) \<Rightarrow> solution \<Rightarrow> 'r outputs \<Rightarrow> ('e exn + 'r outputs) set" where
  "sweep_point_rnd rnd sol outs =
     (let time = sol_time sol; pwr = sol_power sol; voltage = sol_voltage sol in
      case cumulative_energy_rnd rnd time pwr of
        Inl e \<Rightarrow> {Inl e}
      | Inr energy \<Rightarrow>
         (case index_last energy of
            Inl e \<Rightarrow> {Inl e}
          | Inr discharge_energy \<Rightarrow>
              {Inr (outs\<lparr>Voltage_V := Voltage_V outs @ [voltage],
                         Time_s := Time_s outs @ [time],
                         Energy_Wh := Energy_Wh outs @ [energy],
                         Discharge_Energy_Wh := Discharge_Energy_Wh outs @ [discharge_energy],
                         Mean_Power_W := Mean_Power_W outs @ [mean_power]\<rparr>)
               | mean_power. mean_power \<in> np_mean_rnd rnd pwr}))"


text \<open>
  A stand-in for the solver, used to run the harness on concrete data: it reaches the
  cutoff for rates up to 2, holding the power equal to the rate for one hour, and fails
  above. Its state counts the invocations.
\<close>

definition stub_solver :: "(unit, real, nat, string) solver" where
  "stub_solver pv r calls =
     (if r \<le> 2
      then Inr \<lparr>sol_time = [1800, 3600], sol_power = [r, r], sol_voltage = [4, 3]\<rparr>
      else Inl ''cutoff not reached'',
      Suc calls)"

section \<open>Properties of the variability sampler\<close>

lemma np_sum_bool_filter: "np_sum_bool (map P xs) = length (filter P xs)"
  unfolding np_sum_bool_def by (induction xs) simp_all

lemma np_less_iff: "np_less r t \<longleftrightarrow> r = NegInf \<or> (\<exists>x. r = Finite x \<and> x < t)"
  by (cases r) simp_all

lemma np_sum_bool_card:
  "np_sum_bool (map (\<lambda>r. np_less r thr) npr) =
     card {i. i < length npr \<and> (npr ! i = NegInf \<or> (\<exists>x. npr ! i = Finite x \<and> x < thr))}"
  by (simp add: np_sum_bool_filter length_filter_conv_card np_less_iff)

text \<open>
  C1. For a non-empty ratio sequence and any threshold, the exceedance statistic is the
  number of positions whose ratio is strictly below the threshold (a finite value \<open>x\<close>
  with \<open>x < thr\<close>, or minus infinity), divided by the length and multiplied by 100.
  The comparison is strict, so a ratio equal to the threshold is not counted.
\<close>

theorem exceedance_is_strict_count:
  assumes "npr \<noteq> []"
  shows "exceedance thr npr =
     Finite (real (card {i. i < length npr \<and>
                (npr ! i = NegInf \<or> (\<exists>x. npr ! i = Finite x \<and> x < thr))})
              / real (length npr) * 100)"
  using assms unfolding exceedance_def np_sum_bool_card by (simp add: np_div_def)

theorem exceedance_is_strict_count_witness:
  "[Finite (1/2), Finite 1, Finite 2, NegInf, NaN] \<noteq> [] \<and>
   exceedance 1 [Finite (1/2), Finite 1, Finite 2, NegInf, NaN] = Finite 40 \<and>
   real (card {i. i < length [Finite (1/2), Finite 1, Finite 2, NegInf, NaN] \<and>
        ([Finite (1/2), Finite 1, Finite 2, NegInf, NaN] ! i = NegInf \<or>
         (\<exists>x. [Finite (1/2), Finite 1, Finite 2, NegInf, NaN] ! i = Finite x \<and> x < 1))})
      / real (length [Finite (1/2), Finite 1, Finite 2, NegInf, NaN]) * 100 = 40"
proof -
  let ?npr = "[Finite (1/2), Finite 1, Finite 2, NegInf, NaN]"
  have ne: "?npr \<noteq> []" by simp
  have v: "exceedance 1 ?npr = Finite 40"
    by (simp add: exceedance_def np_sum_bool_def np_div_def)
  from exceedance_is_strict_count [OF ne, of 1] v show ?thesis by simp
qed

subsection \<open>Scaling the negative capacities\<close>

lemma scaled_less_imp_less:
  assumes "1 \<le> f" and "np_less (np_div (n * f) p) 1"
  shows "np_less (np_div n p) 1"
proof (cases "p = 0")
  case True
  with assms show ?thesis
    by (auto simp: np_div_def zero_less_mult_iff mult_less_0_iff split: if_splits)
next
  case False
  from assms False have lt: "n * f / p < 1" by (simp add: np_div_def)
  show ?thesis
  proof (cases "n / p < 0")
    case True
    with False show ?thesis by (simp add: np_div_def)
  next
    case nn: False
    then have "0 \<le> n / p" by simp
    with assms(1) have "n / p * 1 \<le> n / p * f" by (rule mult_left_mono)
    also have "\<dots> = n * f / p" by simp
    finally show ?thesis using lt False by (simp add: np_div_def)
  qed
qed

lemma np_sum_bool_mono:
  assumes "\<And>x. x \<in> set xs \<Longrightarrow> P x \<Longrightarrow> Q x"
  shows "np_sum_bool (map P xs) \<le> np_sum_bool (map Q xs)"
  using assms unfolding np_sum_bool_def by (induction xs) (auto intro: add_mono)

lemma exceedance_nonempty:
  "npr \<noteq> [] \<Longrightarrow>
     exceedance thr npr =
       Finite (real (np_sum_bool (map (\<lambda>r. np_less r thr) npr)) / real (length npr) * 100)"
  by (simp add: exceedance_def np_div_def)

lemma npr_scaled_paired:
  "length neg = length pos \<Longrightarrow>
     npr_scaled f neg pos = Inr (map (\<lambda>(n, p). np_div (n * f) p) (zip neg pos))"
  by (simp add: npr_scaled_def np_broadcast_def zip_map1 case_prod_unfold)

lemma npr_base_paired:
  "length neg = length pos \<Longrightarrow> npr_base neg pos = Inr (map (\<lambda>(n, p). np_div n p) (zip neg pos))"
  by (simp add: npr_base_def np_broadcast_def)

text \<open>
  C3, as the code has it. For paired, non-empty capacity sequences and a factor \<open>f \<ge> 1\<close> on
  every negative capacity, the exceedance at threshold 1 is a finite percentage that is
  at most the percentage without the factor, and equal to it at \<open>f = 1\<close>. The decrease is
  not strict: a sample whose ratio stays below 1, or was never below 1, does not move
  the count.
\<close>

theorem anode_factor_never_raises_exceedance:
  assumes "length neg = length pos" and "neg \<noteq> []" and "1 \<le> f"
  shows "\<exists>a b. map_sum id (exceedance 1) (npr_scaled f neg pos) = Inr (Finite a) \<and>
               map_sum id (exceedance 1) (npr_base neg pos) = Inr (Finite b) \<and>
               a \<le> b \<and> (f = 1 \<longrightarrow> a = b)"
proof -
  let ?scaled = "map (\<lambda>(n, p). np_div (n * f) p) (zip neg pos)"
  let ?base = "map (\<lambda>(n, p). np_div n p) (zip neg pos)"
  let ?cs = "np_sum_bool (map (\<lambda>(n, p). np_less (np_div (n * f) p) 1) (zip neg pos))"
  let ?cb = "np_sum_bool (map (\<lambda>(n, p). np_less (np_div n p) 1) (zip neg pos))"
  let ?N = "real (length neg)"
  have ne: "?scaled \<noteq> []" "?base \<noteq> []" using assms(1,2) by auto
  have len: "length ?scaled = length neg" "length ?base = length neg"
    using assms(1) by simp_all
  have es: "exceedance 1 ?scaled = Finite (real ?cs / ?N * 100)"
    unfolding exceedance_nonempty [OF ne(1)] len by (simp add: case_prod_unfold comp_def)
  have eb: "exceedance 1 ?base = Finite (real ?cb / ?N * 100)"
    unfolding exceedance_nonempty [OF ne(2)] len by (simp add: case_prod_unfold comp_def)
  have "?cs \<le> ?cb"
    by (rule np_sum_bool_mono) (auto intro: scaled_less_imp_less [OF assms(3)])
  then have le: "real ?cs / ?N * 100 \<le> real ?cb / ?N * 100"
    by (simp add: divide_right_mono)
  have eq: "f = 1 \<longrightarrow> real ?cs / ?N * 100 = real ?cb / ?N * 100" by simp
  show ?thesis
    unfolding npr_scaled_paired [OF assms(1)] npr_base_paired [OF assms(1)]
    using es eb le eq by simp
qed

theorem anode_factor_never_raises_exceedance_witness:
  "length [1, 3 :: real] = length [2, 2 :: real] \<and> [1, 3 :: real] \<noteq> [] \<and> (1 :: real) \<le> 3 \<and>
   map_sum id (exceedance 1) (npr_scaled 3 [1, 3] [2, 2]) = (Inr (Finite 0) :: unit exn + npfloat) \<and>
   map_sum id (exceedance 1) (npr_base [1, 3] [2, 2]) = (Inr (Finite 50) :: unit exn + npfloat) \<and>
   (\<exists>a b. map_sum id (exceedance 1) (npr_scaled 3 [1, 3] [2, 2])
             = (Inr (Finite a) :: unit exn + npfloat) \<and>
          map_sum id (exceedance 1) (npr_base [1, 3] [2, 2])
             = (Inr (Finite b) :: unit exn + npfloat) \<and> a \<le> b)"
proof -
  have h: "length [1, 3 :: real] = length [2, 2 :: real]" "[1, 3 :: real] \<noteq> []" "(1 :: real) \<le> 3"
    by simp_all
  have v: "map_sum id (exceedance 1) (npr_scaled 3 [1, 3] [2, 2])
             = (Inr (Finite 0) :: unit exn + npfloat)"
      "map_sum id (exceedance 1) (npr_base [1, 3] [2, 2])
             = (Inr (Finite 50) :: unit exn + npfloat)"
    by (simp_all add: npr_scaled_def npr_base_def np_broadcast_def exceedance_def
          np_sum_bool_def np_div_def)
  from anode_factor_never_raises_exceedance [OF h] h v show ?thesis by simp
qed

text \<open>
  The strict form of C3 fails: with negative capacities \<open>[1, 3]\<close> against positive
  capacities \<open>[4, 2]\<close> the ratios are \<open>0.25\<close> and \<open>1.5\<close>, and doubling the negative
  capacities gives \<open>0.5\<close> and \<open>3\<close>. One sample of two is below 1 either way: the
  factor 2 leaves the exceedance at 50 percent.
\<close>

theorem strict_decrease_counterexample:
  "map_sum id (exceedance 1) (npr_base [1, 3] [4, 2]) = (Inr (Finite 50) :: unit exn + npfloat) \<and>
   map_sum id (exceedance 1) (npr_scaled 2 [1, 3] [4, 2]) = (Inr (Finite 50) :: unit exn + npfloat) \<and>
   \<not> ((50 :: real) < 50)"
  by (simp add: npr_scaled_def npr_base_def np_broadcast_def exceedance_def
        np_sum_bool_def np_div_def)

subsection \<open>A sampled notebook\<close>

lemmas notebook_constants =
  NEG_LOADING_MEAN_def POS_LOADING_MEAN_def NEG_QSP_def POS_QSP_def
  NEG_LOADING_CV_def POS_LOADING_CV_def neg_loading_std_def pos_loading_std_def

lemma sampled_notebook:
  "monte_carlo_sampling counting_normal 2 fresh_notebook =
     \<lparr>rng = 4, neg_areal_capacity = [27621 / 5000, 1408671 / 250000],
      pos_areal_capacity = [915999 / 156250, 1883847 / 312500],
      pos_areal_capacity_new = [], ANODE_LOADING_INCREASE_FACTOR = 1,
      npr_actual = [], percent_more = NaN\<rparr>"
  by (simp add: monte_carlo_sampling_def counting_normal_def fresh_notebook_def
        notebook_constants upt_rec)

subsection \<open>The empty sample\<close>













subsection \<open>Which positive sample set scenario 2 uses\<close>

text \<open>
  C8, as the code has it. The cell of scenario 2 draws nothing: when it completes, the
  generator state and the positive capacities are those it started with, the ratio is
  taken against these baseline positive capacities, and the statistic is that of this
  ratio.
\<close>

theorem anode_increase_reuses_baseline_positive:
  assumes "increase_anode_loading f st = (Inr st' :: 'e exn + 'g notebook)"
  shows "rng st' = rng st \<and> pos_areal_capacity st' = pos_areal_capacity st \<and>
         npr_scaled f (neg_areal_capacity st) (pos_areal_capacity st)
           = (Inr (npr_actual st') :: 'e exn + npfloat list) \<and>
         percent_more st' = exceedance 1 (npr_actual st')"
  using assms unfolding increase_anode_loading_def
  by (auto split: if_splits sum.splits)

theorem anode_increase_reuses_baseline_positive_witness:
  "increase_anode_loading (21/20) (monte_carlo_sampling counting_normal 2 fresh_notebook)
     = (Inr \<lparr>rng = 4, neg_areal_capacity = [27621 / 5000, 1408671 / 250000],
            pos_areal_capacity = [915999 / 156250, 1883847 / 312500],
            pos_areal_capacity_new = [], ANODE_LOADING_INCREASE_FACTOR = 21 / 20,
            npr_actual = [Finite (690525 / 697904), Finite (1408671 / 1435312)],
            percent_more = Finite 100\<rparr> :: unit exn + nat notebook) \<and>
   rng (monte_carlo_sampling counting_normal 2 fresh_notebook) = 4 \<and>
   pos_areal_capacity (monte_carlo_sampling counting_normal 2 fresh_notebook)
     = [915999 / 156250, 1883847 / 312500] \<and>
   npr_scaled (21/20) (neg_areal_capacity (monte_carlo_sampling counting_normal 2 fresh_notebook))
       (pos_areal_capacity (monte_carlo_sampling counting_normal 2 fresh_notebook))
     = (Inr [Finite (690525 / 697904), Finite (1408671 / 1435312)] :: unit exn + npfloat list) \<and>
   exceedance 1 [Finite (690525 / 697904), Finite (1408671 / 1435312)] = Finite 100"
proof -
  let ?st = "monte_carlo_sampling counting_normal 2 fresh_notebook"
  let ?st' = "\<lparr>rng = 4 :: nat, neg_areal_capacity = [27621 / 5000, 1408671 / 250000],
            pos_areal_capacity = [915999 / 156250, 1883847 / 312500],
            pos_areal_capacity_new = [], ANODE_LOADING_INCREASE_FACTOR = 21 / 20,
            npr_actual = [Finite (690525 / 697904), Finite (1408671 / 1435312)],
            percent_more = Finite 100\<rparr>"
  have run: "increase_anode_loading (21/20) ?st = (Inr ?st' :: unit exn + nat notebook)"
    by (simp add: sampled_notebook increase_anode_loading_def npr_scaled_def np_broadcast_def
          exceedance_def np_sum_bool_def np_div_def)
  from anode_increase_reuses_baseline_positive [OF run] run show ?thesis
    by (simp add: sampled_notebook)
qed

text \<open>
  The reading of C8 in which scenario 2 draws the positive loading afresh fails on the
  code. After the sampling cell has made its four draws, the cell of scenario 2 leaves
  the generator at 4 draws and the positive capacities as sampled; the re-sampling
  variant would move the generator to 6 draws and replace the positive capacities.
\<close>

theorem scenario2_resampling_counterexample:
  "rng (monte_carlo_sampling counting_normal 2 fresh_notebook) = 4 \<and>
   pos_areal_capacity (monte_carlo_sampling counting_normal 2 fresh_notebook)
     = [915999 / 156250, 1883847 / 312500] \<and>
   map_sum id rng
     (increase_anode_loading (21/20) (monte_carlo_sampling counting_normal 2 fresh_notebook))
     = (Inr 4 :: unit exn + nat) \<and>
   map_sum id pos_areal_capacity
     (increase_anode_loading (21/20) (monte_carlo_sampling counting_normal 2 fresh_notebook))
     = (Inr [915999 / 156250, 1883847 / 312500] :: unit exn + real list) \<and>
   map_sum id rng
     (increase_anode_loading_resampling counting_normal 2 (21/20)
        (monte_carlo_sampling counting_normal 2 fresh_notebook))
     = (Inr 6 :: unit exn + nat) \<and>
   map_sum id pos_areal_capacity
     (increase_anode_loading_resampling counting_normal 2 (21/20)
        (monte_carlo_sampling counting_normal 2 fresh_notebook))
     = (Inr [483924 / 78125, 397509 / 62500] :: unit exn + real list)"
  by (simp add: sampled_notebook increase_anode_loading_def
        increase_anode_loading_resampling_def npr_scaled_def np_broadcast_def
        counting_normal_def notebook_constants upt_rec)

section \<open>Properties of the rate sweep harness\<close>

subsection \<open>Cumulative sums and differences\<close>




lemma cumsum_from_eq_Nil [simp]: "cumsum_from a xs = [] \<longleftrightarrow> xs = []"
  by (cases xs) simp_all


lemma length_np_diff: "length (np_diff xs) = length xs - 1"
  by (induction xs rule: np_diff.induct) simp_all



lemma np_diff_nonneg: "sorted xs \<Longrightarrow> d \<in> set (np_diff xs) \<Longrightarrow> 0 \<le> d"
  by (induction xs rule: np_diff.induct) auto

lemma sorted_cumsum_from:
  "(\<forall>x\<in>set xs. 0 \<le> x) \<Longrightarrow>
     sorted (cumsum_from a xs) \<and> (\<forall>y\<in>set (cumsum_from a xs). a \<le> y)"
proof (induction xs arbitrary: a)
  case Nil
  then show ?case by simp
next
  case (Cons x xs)
  then have "sorted (cumsum_from (a + x) xs)" and "\<forall>y\<in>set (cumsum_from (a + x) xs). a + x \<le> y"
    by simp_all
  moreover from Cons.prems have "0 \<le> x" by simp
  ultimately show ?case by fastforce
qed

subsection \<open>Broadcasting\<close>


lemma hd_in_singleton: "length us = 1 \<Longrightarrow> hd us \<in> set us"
  by (cases us) simp_all

lemma np_broadcast_elems:
  assumes "np_broadcast f xs ys = Inr zs" and "z \<in> set zs"
  shows "\<exists>x\<in>set xs. \<exists>y\<in>set ys. z = f x y"
proof -
  consider (paired) "length xs = length ys" "zs = map2 f xs ys"
    | (right) "length ys = 1" "zs = map (\<lambda>x. f x (hd ys)) xs"
    | (left) "length xs = 1" "zs = map (\<lambda>y. f (hd xs) y) ys"
    using assms(1) unfolding np_broadcast_def by (simp split: if_splits)
  then show ?thesis
  proof cases
    case paired
    with assms(2) obtain x y where "(x, y) \<in> set (zip xs ys)" and "z = f x y" by auto
    then show ?thesis by (blast dest: set_zip_leftD set_zip_rightD)
  next
    case right
    with assms(2) obtain x where "x \<in> set xs" and "z = f x (hd ys)" by auto
    with hd_in_singleton [OF right(1)] show ?thesis by blast
  next
    case left
    with assms(2) obtain y where "y \<in> set ys" and "z = f (hd xs) y" by auto
    with hd_in_singleton [OF left(1)] show ?thesis by blast
  qed
qed

lemma cumulative_energy_paired:
  "length time = length pwr \<Longrightarrow>
     cumulative_energy time pwr =
       Inr (map (\<lambda>x. x / 3600) (cumsum_from 0 (map2 (*) pwr (np_diff (0 # time)))))"
  by (simp add: cumulative_energy_def np_broadcast_def np_append_def np_cumsum_def length_np_diff)


lemma sorted_map_divide: "sorted xs \<Longrightarrow> sorted (map (\<lambda>x. x / 3600) xs)" for xs :: "real list"
  by (induction xs) (auto simp: divide_right_mono)

lemma np_mean_replicate: "0 < n \<Longrightarrow> np_mean (replicate n c) = Finite c"
  by (simp add: np_mean_def np_div_def sum_list_replicate)

subsection \<open>The energy integral\<close>




subsection \<open>Constant power under rounding\<close>



lemma np_diff_rnd_exact:
  "\<forall>x\<in>set (np_diff xs). rnd x = x \<Longrightarrow> np_diff_rnd rnd xs = np_diff xs"
  by (induction xs rule: np_diff.induct) simp_all

lemma accumulate_rnd_exact:
  "\<forall>x\<in>set (cumsum_from acc xs). rnd x = x \<Longrightarrow> accumulate_rnd rnd acc xs = cumsum_from acc xs"
  by (induction xs arbitrary: acc) simp_all

lemma np_cumsum_rnd_exact:
  "\<forall>x\<in>set (np_cumsum xs). rnd x = x \<Longrightarrow> np_cumsum_rnd rnd xs = np_cumsum xs"
  by (cases xs) (simp_all add: np_cumsum_def accumulate_rnd_exact)



lemma reduce_add_exists: "A \<noteq> {#} \<Longrightarrow> \<exists>s. reduce_add rnd A s"
proof (induction A rule: multiset_induct)
  case empty
  then show ?case by simp
next
  case (add x A)
  show ?case
  proof (cases "A = {#}")
    case True
    then show ?thesis using reduce_add.one [of rnd x] by auto
  next
    case False
    with add.IH obtain s where "reduce_add rnd A s" by blast
    from reduce_add.add [OF reduce_add.one [of rnd x] this] show ?thesis by auto
  qed
qed





lemma singleton_image_Collect: "{f m | m. m \<in> {a}} = {f a}"
  by auto

text \<open>With the identity for \<open>rnd\<close> the rounded loop body is the loop body of exact arithmetic.\<close>

lemma np_cumsum_rnd_id: "np_cumsum_rnd id xs = np_cumsum xs"
  by (rule np_cumsum_rnd_exact) simp

lemma cumulative_energy_rnd_id: "cumulative_energy_rnd id time pwr = cumulative_energy time pwr"
proof -
  have "np_diff_rnd id xs = np_diff xs" for xs by (rule np_diff_rnd_exact) simp
  then show ?thesis
    by (simp add: cumulative_energy_rnd_def cumulative_energy_def np_cumsum_rnd_id
          split: sum.splits)
qed

lemma reduce_add_id: "reduce_add id A s \<Longrightarrow> s = sum_mset A"
  by (induction rule: reduce_add.induct) simp_all

lemma np_mean_rnd_id: "np_mean_rnd id xs = {np_mean xs}"
proof (cases "xs = []")
  case True
  then show ?thesis by (simp add: np_mean_rnd_def np_mean_def np_div_def)
next
  case False
  then have "mset xs \<noteq> {#}" by simp
  from reduce_add_exists [OF this, of id] obtain s0 where s0: "reduce_add id (mset xs) s0" by blast
  have un: "s = sum_list xs" if "reduce_add id (mset xs) s" for s
    using reduce_add_id [OF that] by (simp add: sum_mset_sum_list)
  have "{Finite (id (s / real (length xs))) | s. reduce_add id (mset xs) s}
          = {Finite (sum_list xs / real (length xs))}"
  proof (intro set_eqI iffI)
    fix x
    assume "x \<in> {Finite (id (s / real (length xs))) | s. reduce_add id (mset xs) s}"
    then obtain s where "reduce_add id (mset xs) s" and "x = Finite (id (s / real (length xs)))"
      by blast
    with un [of s] show "x \<in> {Finite (sum_list xs / real (length xs))}" by simp
  next
    fix x
    assume "x \<in> {Finite (sum_list xs / real (length xs))}"
    then have "x = Finite (id (s0 / real (length xs)))" using un [OF s0] by simp
    with s0 show "x \<in> {Finite (id (s / real (length xs))) | s. reduce_add id (mset xs) s}"
      by blast
  qed
  with False show ?thesis unfolding np_mean_rnd_def np_mean_def by (simp add: np_div_def)
qed

lemma sweep_point_rnd_id: "sweep_point_rnd id sol outs = {sweep_point sol outs}"
  unfolding sweep_point_rnd_def sweep_point_def Let_def cumulative_energy_rnd_id np_mean_rnd_id
    singleton_image_Collect
  by (simp split: sum.splits)









text \<open>
  C10. When every power value is non-negative and the time sequence, with 0 put in
  front, is non-decreasing, the cumulative energy is non-decreasing whenever it is
  computed, and it is computed whenever time and power have the same length.
\<close>

theorem cumulative_energy_monotone:
  assumes "\<forall>p\<in>set pwr. 0 \<le> p" and "sorted (0 # time)"
  shows "(length time = length pwr \<longrightarrow>
           (\<exists>energy. cumulative_energy time pwr = (Inr energy :: 'e exn + real list))) \<and>
         (\<forall>energy. cumulative_energy time pwr = (Inr energy :: 'e exn + real list) \<longrightarrow>
           sorted energy)"
proof (intro conjI allI impI)
  assume "length time = length pwr"
  then show "\<exists>energy. cumulative_energy time pwr = (Inr energy :: 'e exn + real list)"
    by (simp add: cumulative_energy_paired)
next
  fix energy
  assume "cumulative_energy time pwr = (Inr energy :: 'e exn + real list)"
  then obtain pdt where
    b: "np_broadcast (*) pwr (np_diff (0 # time)) = (Inr pdt :: 'e exn + real list)" and
    e: "energy = map (\<lambda>x. x / 3600) (cumsum_from 0 pdt)"
    by (auto simp: cumulative_energy_def np_append_def np_cumsum_def split: sum.splits)
  have "0 \<le> z" if "z \<in> set pdt" for z
  proof -
    from np_broadcast_elems [OF b that] obtain p d
      where "p \<in> set pwr" and "d \<in> set (np_diff (0 # time))" and "z = p * d" by blast
    with assms np_diff_nonneg [of "0 # time" d] show ?thesis by simp
  qed
  then have "sorted (cumsum_from 0 pdt)" using sorted_cumsum_from [of pdt 0] by blast
  then show "sorted energy" unfolding e by (rule sorted_map_divide)
qed

theorem cumulative_energy_monotone_witness:
  "(0 :: real) \<le> 2 \<and> (0 :: real) \<le> 4 \<and> sorted (0 # [1800, 3600 :: real]) \<and>
   length [1800, 3600 :: real] = length [2, 4 :: real] \<and>
   cumulative_energy [1800, 3600] [2, 4] = (Inr [1, 3] :: unit exn + real list) \<and>
   sorted [1, 3 :: real]"
proof -
  have h: "\<forall>p\<in>set [2, 4 :: real]. 0 \<le> p" "sorted (0 # [1800, 3600 :: real])" by simp_all
  have v: "cumulative_energy [1800, 3600] [2, 4] = (Inr [1, 3] :: unit exn + real list)"
    by (simp add: cumulative_energy_def np_broadcast_def np_append_def np_cumsum_def)
  from cumulative_energy_monotone [OF h, where ?'e = unit] v have "sorted [1, 3 :: real]"
    by blast
  with v show ?thesis by simp
qed

subsection \<open>The sweep\<close>

text \<open>
  C5. Sweeping the empty rate list returns the aggregate in which every key holds the
  empty sequence, whatever the solver would do: the solver's state is returned as it
  was given, so the solver was not invoked.
\<close>

theorem sweep_empty_rate_list:
  "sweep_c_rate solve [] parameter_values w =
     (Inr \<lparr>C_rate = [], Energy_Wh = [], Discharge_Energy_Wh = [], Time_s = [],
            Voltage_V = [], Mean_Power_W = []\<rparr>, w)"
  by (simp add: sweep_c_rate_def initial_outputs_def)

lemma sweep_point_Inr:
  assumes "sweep_point sol outs = (Inr outs' :: 'e exn + 'r outputs)"
  obtains energy where
    "cumulative_energy (sol_time sol) (sol_power sol) = (Inr energy :: 'e exn + real list)"
    and "energy \<noteq> []"
    and "outs' = outs\<lparr>Voltage_V := Voltage_V outs @ [sol_voltage sol],
                      Time_s := Time_s outs @ [sol_time sol],
                      Energy_Wh := Energy_Wh outs @ [energy],
                      Discharge_Energy_Wh := Discharge_Energy_Wh outs @ [last energy],
                      Mean_Power_W := Mean_Power_W outs @ [np_mean (sol_power sol)]\<rparr>"
  using assms unfolding sweep_point_def index_last_def Let_def
  by (auto split: sum.splits if_splits)

lemma sweep_point_C_rate:
  "sweep_point sol (outs\<lparr>C_rate := c\<rparr>) = map_sum id (\<lambda>out. out\<lparr>C_rate := c\<rparr>) (sweep_point sol outs)"
  unfolding sweep_point_def Let_def by (simp split: sum.splits)

lemma sweep_loop_C_rate:
  fixes solve :: "('p, 'r, 'w, 'e) solver"
  shows "sweep_loop solve pv rs (outs\<lparr>C_rate := c\<rparr>) w =
     map_prod (map_sum id (\<lambda>out. out\<lparr>C_rate := c\<rparr>)) id (sweep_loop solve pv rs outs w)"
proof (induction rs arbitrary: outs w)
  case Nil
  show ?case by simp
next
  case (Cons r rs)
  show ?case
  proof (cases "solve pv r w")
    case (Pair res w1)
    show ?thesis
    proof (cases res)
      case (Inl e)
      with Pair show ?thesis by simp
    next
      case (Inr sol)
      show ?thesis
      proof (cases "sweep_point sol outs :: 'e exn + 'r outputs")
        case bad: (Inl e)
        with Pair Inr show ?thesis by (simp add: sweep_point_C_rate)
      next
        case good: (Inr outs1)
        with Pair Inr Cons.IH [of outs1 w1] show ?thesis by (simp add: sweep_point_C_rate)
      qed
    qed
  qed
qed

lemma sweep_loop_append:
  "sweep_loop solve pv (xs @ ys) outs w =
     (case sweep_loop solve pv xs outs w of
        (Inl e, w') \<Rightarrow> (Inl e, w')
      | (Inr outs', w') \<Rightarrow> sweep_loop solve pv ys outs' w')"
  by (induction xs arbitrary: outs w) (simp_all split: prod.splits sum.splits)

lemma initial_outputs_C_rate: "initial_outputs cs = (initial_outputs ds)\<lparr>C_rate := cs\<rparr>"
  by (simp add: initial_outputs_def)

lemma length_solver_runs: "length (solver_runs solve pv rs w) = length rs"
  by (induction rs arbitrary: w) (simp_all split: prod.splits)

lemma sweep_loop_runs:
  fixes solve :: "('p, 'r, 'w, 'e) solver"
  assumes "sweep_loop solve pv rs outs w = (Inr outs', w')"
  shows "\<exists>sols energies.
           solver_runs solve pv rs w = map Inr sols \<and>
           map (\<lambda>s. cumulative_energy (sol_time s) (sol_power s)) sols
             = (map Inr energies :: ('e exn + real list) list) \<and>
           C_rate outs' = C_rate outs \<and>
           Time_s outs' = Time_s outs @ map sol_time sols \<and>
           Voltage_V outs' = Voltage_V outs @ map sol_voltage sols \<and>
           Energy_Wh outs' = Energy_Wh outs @ energies \<and>
           Discharge_Energy_Wh outs' = Discharge_Energy_Wh outs @ map last energies \<and>
           Mean_Power_W outs' = Mean_Power_W outs @ map (\<lambda>s. np_mean (sol_power s)) sols"
    (is "\<exists>sols energies. ?R rs outs w sols energies")
  using assms
proof (induction rs arbitrary: outs w)
  case Nil
  then have "outs' = outs" by simp
  then have "?R [] outs w [] []" by simp
  then show ?case by blast
next
  case (Cons r rs)
  from Cons.prems obtain sol w1 outs1 where
    run: "solve pv r w = (Inr sol, w1)" and
    point: "sweep_point sol outs = (Inr outs1 :: 'e exn + 'r outputs)" and
    rest: "sweep_loop solve pv rs outs1 w1 = (Inr outs', w')"
    by (auto split: prod.splits sum.splits)
  from Cons.IH [OF rest] obtain sols energies where tl: "?R rs outs1 w1 sols energies"
    by blast
  from point obtain energy where
    en: "cumulative_energy (sol_time sol) (sol_power sol) = (Inr energy :: 'e exn + real list)" and
    o1: "outs1 = outs\<lparr>Voltage_V := Voltage_V outs @ [sol_voltage sol],
                      Time_s := Time_s outs @ [sol_time sol],
                      Energy_Wh := Energy_Wh outs @ [energy],
                      Discharge_Energy_Wh := Discharge_Energy_Wh outs @ [last energy],
                      Mean_Power_W := Mean_Power_W outs @ [np_mean (sol_power sol)]\<rparr>"
    by (rule sweep_point_Inr)
  have "?R (r # rs) outs w (sol # sols) (energy # energies)"
    using tl run en unfolding o1 by simp
  then show ?case by blast
qed

lemma stub_sweep_two:
  "sweep_c_rate stub_solver [1, 2] () 0 =
     (Inr \<lparr>C_rate = [1, 2], Energy_Wh = [[1 / 2, 1], [1, 2]], Discharge_Energy_Wh = [1, 2],
            Time_s = [[1800, 3600], [1800, 3600]], Voltage_V = [[4, 3], [4, 3]],
            Mean_Power_W = [Finite 1, Finite 2]\<rparr>, 2)"
  by (simp add: sweep_c_rate_def initial_outputs_def stub_solver_def sweep_point_def
        cumulative_energy_def np_broadcast_def np_append_def np_cumsum_def
        index_last_def np_mean_def np_div_def Let_def)

lemma stub_runs_two:
  "solver_runs stub_solver () [1, 2] 0 =
     map Inr [\<lparr>sol_time = [1800, 3600], sol_power = [1, 1], sol_voltage = [4, 3]\<rparr>,
              \<lparr>sol_time = [1800, 3600], sol_power = [2, 2], sol_voltage = [4, 3]\<rparr>]"
  by (simp add: stub_solver_def)

lemma stub_sweep_one:
  "sweep_c_rate stub_solver [1] () 0 =
     (Inr \<lparr>C_rate = [1], Energy_Wh = [[1 / 2, 1]], Discharge_Energy_Wh = [1],
            Time_s = [[1800, 3600]], Voltage_V = [[4, 3]],
            Mean_Power_W = [Finite 1]\<rparr>, 1)"
  by (simp add: sweep_c_rate_def initial_outputs_def stub_solver_def sweep_point_def
        cumulative_energy_def np_broadcast_def np_append_def np_cumsum_def
        index_last_def np_mean_def np_div_def Let_def)

lemma sweep_without_aggregate:
  fixes solve :: "('p, 'r, 'w, 'e) solver"
  assumes "res \<in> set (solver_runs solve pv C_rates w)" and "isl res"
  shows "isl (fst (sweep_c_rate solve C_rates pv w))"
proof (rule ccontr)
  assume "\<not> isl (fst (sweep_c_rate solve C_rates pv w))"
  then obtain outs w' where
    "sweep_loop solve pv C_rates (initial_outputs C_rates) w = (Inr outs, w')"
    by (cases "sweep_c_rate solve C_rates pv w"; cases "fst (sweep_c_rate solve C_rates pv w)")
       (auto simp: sweep_c_rate_def)
  from sweep_loop_runs [OF this] obtain sols where "solver_runs solve pv C_rates w = map Inr sols"
    by blast
  with assms show False by auto
qed

text \<open>
  C6. If the sweep over the earlier rates completes and the solver then fails on the
  next rate, the sweep over the whole list returns that failure and no aggregate. The
  solver's state is the one the failing call left: the call is not repeated and the
  later rates are not run.
\<close>

theorem solver_failure_aborts_sweep:
  assumes "sweep_c_rate solve earlier pv w = (Inr outs1, w1)"
    and "solve pv r w1 = (Inl e, w2)"
  shows "sweep_c_rate solve (earlier @ r # later) pv w = (Inl (Raised e), w2)"
proof -
  let ?all = "earlier @ r # later"
  from assms(1) have "sweep_loop solve pv earlier (initial_outputs earlier) w = (Inr outs1, w1)"
    by (simp add: sweep_c_rate_def)
  then have "sweep_loop solve pv earlier (initial_outputs ?all) w = (Inr (outs1\<lparr>C_rate := ?all\<rparr>), w1)"
    by (subst initial_outputs_C_rate [of ?all earlier]) (simp add: sweep_loop_C_rate)
  with assms(2) show ?thesis
    by (simp add: sweep_c_rate_def sweep_loop_append)
qed

theorem solver_failure_aborts_sweep_witness:
  "sweep_c_rate stub_solver [1] () 0 =
     (Inr \<lparr>C_rate = [1], Energy_Wh = [[1 / 2, 1]], Discharge_Energy_Wh = [1],
            Time_s = [[1800, 3600]], Voltage_V = [[4, 3]],
            Mean_Power_W = [Finite 1]\<rparr>, 1) \<and>
   stub_solver () 3 1 = (Inl ''cutoff not reached'', 2) \<and>
   sweep_c_rate stub_solver ([1] @ 3 # [2]) () 0 = (Inl (Raised ''cutoff not reached''), 2)"
proof -
  have fail: "stub_solver () 3 1 = (Inl ''cutoff not reached'', 2)"
    by (simp add: stub_solver_def)
  from solver_failure_aborts_sweep [OF stub_sweep_one fail, of "[2]"] stub_sweep_one fail
  show ?thesis by simp
qed

text \<open>
  C9. When a sweep over \<open>n\<close> rates completes, the aggregate holds the input list under
  "C-rate" and a sequence of exactly \<open>n\<close> entries under every other key. There is one
  solution per rate, in order, each returned by the solver's run on that rate, and the
  entry at each position is computed from the solution at that position: the time and
  voltage arrays, the cumulative energy, its last element, and the mean power.
\<close>

theorem sweep_outputs_aligned:
  fixes solve :: "('p, 'r, 'w, 'e) solver"
  assumes "sweep_c_rate solve C_rates pv w = (Inr outs, w')"
  shows "C_rate outs = C_rates \<and>
         length (Energy_Wh outs) = length C_rates \<and>
         length (Discharge_Energy_Wh outs) = length C_rates \<and>
         length (Time_s outs) = length C_rates \<and>
         length (Voltage_V outs) = length C_rates \<and>
         length (Mean_Power_W outs) = length C_rates \<and>
         (\<exists>sols. solver_runs solve pv C_rates w = map Inr sols \<and>
            Time_s outs = map sol_time sols \<and>
            Voltage_V outs = map sol_voltage sols \<and>
            map Inr (Energy_Wh outs)
              = (map (\<lambda>s. cumulative_energy (sol_time s) (sol_power s)) sols
                   :: ('e exn + real list) list) \<and>
            Discharge_Energy_Wh outs = map last (Energy_Wh outs) \<and>
            Mean_Power_W outs = map (\<lambda>s. np_mean (sol_power s)) sols)"
proof -
  from assms have "sweep_loop solve pv C_rates (initial_outputs C_rates) w = (Inr outs, w')"
    by (simp add: sweep_c_rate_def)
  from sweep_loop_runs [OF this] obtain sols energies where
    runs: "solver_runs solve pv C_rates w = map Inr sols" and
    en: "map (\<lambda>s. cumulative_energy (sol_time s) (sol_power s)) sols
             = (map Inr energies :: ('e exn + real list) list)" and
    fields: "C_rate outs = C_rates" "Time_s outs = map sol_time sols"
      "Voltage_V outs = map sol_voltage sols" "Energy_Wh outs = energies"
      "Discharge_Energy_Wh outs = map last energies"
      "Mean_Power_W outs = map (\<lambda>s. np_mean (sol_power s)) sols"
    by (auto simp: initial_outputs_def)
  have "length sols = length (solver_runs solve pv C_rates w)" by (simp add: runs)
  then have len: "length sols = length C_rates" by (simp add: length_solver_runs)
  from en have len': "length energies = length sols" by (rule map_eq_imp_length_eq [symmetric])
  from runs en fields len len' show ?thesis by auto
qed

theorem sweep_outputs_aligned_witness:
  "sweep_c_rate stub_solver [1, 2] () 0 =
     (Inr \<lparr>C_rate = [1, 2], Energy_Wh = [[1 / 2, 1], [1, 2]], Discharge_Energy_Wh = [1, 2],
            Time_s = [[1800, 3600], [1800, 3600]], Voltage_V = [[4, 3], [4, 3]],
            Mean_Power_W = [Finite 1, Finite 2]\<rparr>, 2) \<and>
   solver_runs stub_solver () [1, 2] 0 =
     map Inr [\<lparr>sol_time = [1800, 3600], sol_power = [1, 1], sol_voltage = [4, 3]\<rparr>,
              \<lparr>sol_time = [1800, 3600], sol_power = [2, 2], sol_voltage = [4, 3]\<rparr>] \<and>
   (\<exists>sols. solver_runs stub_solver () [1, 2] 0 = map Inr sols \<and>
      [[1800, 3600], [1800, 3600]] = map sol_time sols \<and>
      [[4, 3], [4, 3]] = map sol_voltage sols \<and>
      map Inr [[1 / 2, 1], [1, 2]]
        = (map (\<lambda>s. cumulative_energy (sol_time s) (sol_power s)) sols
             :: (string exn + real list) list) \<and>
      [1, 2] = map last [[1 / 2, 1], [1, 2 :: real]] \<and>
      [Finite 1, Finite 2] = map (\<lambda>s. np_mean (sol_power s)) sols)"
  using sweep_outputs_aligned [OF stub_sweep_two] stub_sweep_two stub_runs_two by simp

end
